theory Spec2Isabelle
  imports Main "HOL-Library.Multiset"
begin

section \<open>Values, errors and collaborators\<close>

text \<open>
  A request field or call argument is a JavaScript value that is either a string or
  absent (\<open>undefined\<close>): \<open>None\<close> is the absent value. \<open>!v\<close> holds for the absent value
  and for the empty string; a template literal prints the absent value as
  \<open>undefined\<close>.
\<close>

type_synonym jsstr = "string option"

fun falsy :: "jsstr \<Rightarrow> bool" where
  "falsy None = True"
| "falsy (Some s) = (s = [])"

fun str_of :: "jsstr \<Rightarrow> string" where
  "str_of None = ''undefined''"
| "str_of (Some s) = s"

text \<open>
  What an operation throws. \<open>ExpressError message status\<close> is the application's own
  error class (src/models/user.js and src/routes/auth.js construct no other).
  \<open>DatabaseError code\<close> is the error the storage client rejects a statement with; it
  carries the SQLSTATE code and no status. \<open>JsError message\<close> is a plain error of a
  library, with no status either.
\<close>

datatype error =
    ExpressError string nat
  | DatabaseError string
  | JsError string

text \<open>
  The error kinds of the specification, as the source constructs them: each is an
  \<open>ExpressError\<close> with the message and status of its throw site.
\<close>

definition ValidationError :: error where
  "ValidationError = ExpressError ''All fields are required'' 400"

definition ConflictError :: "string \<Rightarrow> error" where
  "ConflictError u = ExpressError (''Username '' @ u @ '' already exists'') 400"

definition AuthError :: error where
  "AuthError = ExpressError ''Invalid username/password'' 400"

definition NotFoundError :: "string \<Rightarrow> error" where
  "NotFoundError msg = ExpressError msg 404"

text \<open>
  The payload \<open>{ username }\<close> handed to the token signer.
\<close>

datatype payload = Payload (claim_username: jsstr)

text \<open>
  The collaborators that are not part of the repository's files, taken as parameters:
  the two constants of \<open>../config\<close>, the credential hasher (\<open>bcrypt.hash\<close>,
  \<open>bcrypt.compare\<close> on two strings) and the token signer (\<open>jwt.sign\<close>).
\<close>

record env =
  BCRYPT_WORK_FACTOR :: nat
  SECRET_KEY :: string
  bcrypt_hash :: "string \<Rightarrow> nat \<Rightarrow> string"
  bcrypt_compare :: "string \<Rightarrow> string \<Rightarrow> bool"
  jwt_sign :: "payload \<Rightarrow> string \<Rightarrow> string"

section \<open>The store\<close>

text \<open>
  The two tables, each a list of rows in the order the store's scan of the table
  meets them. Timestamps are natural numbers; the value of
  \<open>current_timestamp\<close> for a statement is a parameter \<open>now\<close> of the operation.
\<close>

record user_row =
  username :: string
  password :: string
  first_name :: string
  last_name :: string
  phone :: string
  join_at :: nat
  last_login_at :: nat

record message_row =
  msg_id :: nat
  from_username :: string
  to_username :: string
  body :: string
  sent_at :: nat
  read_at :: "nat option"

record db =
  users :: "user_row list"
  messages :: "message_row list"

text \<open>
  The object a statement's promise resolves to. The source reads two properties of
  it, \<open>rows\<close> and \<open>code\<close>. \<open>rows[0]\<close> is \<open>undefined\<close> when there is no row.
\<close>

record 'r result =
  code :: "string option"
  rows :: "'r list"

fun first_row :: "'r list \<Rightarrow> 'r option" where
  "first_row [] = None"
| "first_row (r # rs) = Some r"

text \<open>
  A statement parameter compared with a column: the absent value is sent as NULL, and
  a comparison with NULL selects no row.
\<close>

fun param_eq :: "jsstr \<Rightarrow> string \<Rightarrow> bool" where
  "param_eq None c = False"
| "param_eq (Some v) c = (c = v)"

text \<open>
  Row order. A statement without ORDER BY returns its rows in an order of the store's
  choosing, and an update leaves the new version of a row at a place of the store's
  choosing. The choice is a parameter \<open>ord\<close> of the operation, a list of numbers.

  \<open>arrange ord xs\<close> is the order in which the rows \<open>xs\<close> come back: each number of \<open>ord\<close>
  picks, among the rows not yet returned, the one that comes next; when \<open>ord\<close> is used
  up the remaining rows follow as they stand. Every order of \<open>xs\<close> arises from some
  \<open>ord\<close>, and no row is lost or repeated.

  \<open>place ord new old\<close> is a table whose rows \<open>old\<close> stay as they stand and into which the
  rows \<open>new\<close> are written: each at the position its number of \<open>ord\<close> picks, and at the
  end of the table when \<open>ord\<close> is used up.
\<close>

fun arrange :: "nat list \<Rightarrow> 'a list \<Rightarrow> 'a list" where
  "arrange [] xs = xs"
| "arrange (k # ks) [] = []"
| "arrange (k # ks) (x # xs) =
     (let i = k mod length (x # xs)
      in ((x # xs) ! i) # arrange ks (take i (x # xs) @ drop (Suc i) (x # xs)))"

fun place :: "nat list \<Rightarrow> 'a list \<Rightarrow> 'a list \<Rightarrow> 'a list" where
  "place ks [] old = old"
| "place [] (x # xs) old = place [] xs (old @ [x])"
| "place (k # ks) (x # xs) old =
     (let i = k mod (length old + 1)
      in place ks xs (take i old @ x # drop i old))"

text \<open>The row shapes the statements return.\<close>

record registered =
  reg_username :: string
  reg_password :: string
  reg_first_name :: string
  reg_last_name :: string
  reg_phone :: string

text \<open>
  Modelled from the spec: the storage client module \<open>../db\<close> and the schema are not among
  the files. The specification gives the table \<open>users(username PK, password, first_name,
  last_name, phone, join_at, last_login_at)\<close> and says that the uniqueness of usernames
  is enforced by the store, not by the application. The statement is \<open>INSERT INTO users
  (...) VALUES ($1, $2, $3, $4, $5, current_timestamp, current_timestamp) RETURNING
  username, password, first_name, last_name, phone\<close>. When the username is already
  stored, the store refuses the statement with its unique-violation error (SQLSTATE
  23505) and writes nothing; the client reports a refused statement by rejecting the
  promise of \<open>db.query\<close>, so the \<open>await\<close> throws that error. Otherwise the row is appended
  and the promise resolves to a result holding the returned row; a resolved result has
  no \<open>code\<close> property.
\<close>

definition insert_user ::
  "nat \<Rightarrow> db \<Rightarrow> string \<Rightarrow> string \<Rightarrow> string \<Rightarrow> string \<Rightarrow> string
     \<Rightarrow> error + (registered result \<times> db)" where
  "insert_user now d u hp fn ln ph =
     (if u \<in> set (map username (users d)) then Inl (DatabaseError ''23505'')
      else Inr (\<lparr>code = None,
                 rows = [\<lparr>reg_username = u, reg_password = hp, reg_first_name = fn,
                          reg_last_name = ln, reg_phone = ph\<rparr>]\<rparr>,
                d\<lparr>users := users d @
                  [\<lparr>username = u, password = hp, first_name = fn, last_name = ln,
                    phone = ph, join_at = now, last_login_at = now\<rparr>]\<rparr>))"

section \<open>User.register\<close>

record registration =
  f_username :: jsstr
  f_password :: jsstr
  f_first_name :: jsstr
  f_last_name :: jsstr
  f_phone :: jsstr

text \<open>
  src/models/user.js, lines 14 to 38. The guard throws when a field is falsy; past it
  all five fields are strings (the last case is not reached). A rejected statement
  is thrown out of \<open>register\<close> at the \<open>await\<close>; the test of \<open>result.code\<close> is applied to
  a resolved result. The value returned is \<open>result.rows[0]\<close>.
\<close>

definition User_register ::
  "env \<Rightarrow> nat \<Rightarrow> db \<Rightarrow> registration \<Rightarrow> (error + registered option) \<times> db" where
  "User_register e now d f =
     (if falsy (f_username f) \<or> falsy (f_password f) \<or> falsy (f_first_name f)
         \<or> falsy (f_last_name f) \<or> falsy (f_phone f)
      then (Inl (ExpressError ''All fields are required'' 400), d)
      else
        (case (f_username f, f_password f, f_first_name f, f_last_name f, f_phone f) of
           (Some u, Some p, Some fn, Some ln, Some ph) \<Rightarrow>
             (let hashedPwd = bcrypt_hash e p (BCRYPT_WORK_FACTOR e) in
              case insert_user now d u hashedPwd fn ln ph of
                Inl err \<Rightarrow> (Inl err, d)
              | Inr (res, d') \<Rightarrow>
                  if code res = Some ''23505''
                  then (Inl (ExpressError (''Username '' @ u @ '' already exists'') 400), d')
                  else (Inr (first_row (rows res)), d'))
         | _ \<Rightarrow> (Inl (ExpressError ''All fields are required'' 400), d)))"

section \<open>User.authenticate\<close>

text \<open>
  \<open>SELECT password FROM users WHERE username = $1\<close>: the stored hashes of the rows
  with that username, in the order of the table.
\<close>

definition select_password :: "db \<Rightarrow> jsstr \<Rightarrow> string result" where
  "select_password d u =
     \<lparr>code = None, rows = map password (filter (\<lambda>r. param_eq u (username r)) (users d))\<rparr>"

text \<open>
  \<open>await bcrypt.compare(data, hash)\<close>: the library rejects absent data before it
  compares; on a string it resolves to the hasher's verdict.
\<close>

fun bcrypt_compare_await :: "env \<Rightarrow> jsstr \<Rightarrow> string \<Rightarrow> error + bool" where
  "bcrypt_compare_await e None h = Inl (JsError ''data and hash arguments required'')"
| "bcrypt_compare_await e (Some p) h = Inr (bcrypt_compare e p h)"

text \<open>src/models/user.js, lines 42 to 54.\<close>

definition User_authenticate :: "env \<Rightarrow> db \<Rightarrow> jsstr \<Rightarrow> jsstr \<Rightarrow> error + bool" where
  "User_authenticate e d u p =
     (let res = select_password d u; user = first_row (rows res) in
      case user of
        None \<Rightarrow> Inl (ExpressError ''Invalid username/password'' 400)
      | Some hp \<Rightarrow> bcrypt_compare_await e p hp)"

section \<open>User.updateLoginTimestamp\<close>

record stamp =
  st_username :: string
  st_last_login_at :: nat

text \<open>
  \<open>UPDATE users SET last_login_at = current_timestamp WHERE username = $1 RETURNING
  username, last_login_at\<close>: the rows with that username are written anew with the new
  timestamp, at places of the store's choosing; every other row stays as it is, and
  so does every other column. The updated rows are returned.
\<close>

definition update_last_login :: "nat list \<Rightarrow> nat \<Rightarrow> db \<Rightarrow> jsstr \<Rightarrow> stamp result \<times> db" where
  "update_last_login ord now d u =
     (\<lparr>code = None,
       rows = map (\<lambda>r. \<lparr>st_username = username r, st_last_login_at = now\<rparr>)
                (filter (\<lambda>r. param_eq u (username r)) (users d))\<rparr>,
      d\<lparr>users := place ord
                     (map (\<lambda>r. r\<lparr>last_login_at := now\<rparr>)
                        (filter (\<lambda>r. param_eq u (username r)) (users d)))
                     (filter (\<lambda>r. \<not> param_eq u (username r)) (users d))\<rparr>)"

text \<open>src/models/user.js, lines 58 to 71.\<close>

definition User_updateLoginTimestamp ::
  "nat list \<Rightarrow> nat \<Rightarrow> db \<Rightarrow> jsstr \<Rightarrow> (error + stamp) \<times> db" where
  "User_updateLoginTimestamp ord now d u =
     (case update_last_login ord now d u of
        (res, d') \<Rightarrow>
          (case first_row (rows res) of
             None \<Rightarrow> (Inl (ExpressError (''No such user: '' @ str_of u) 404), d')
           | Some r \<Rightarrow> (Inr r, d')))"

section \<open>User.all and User.get\<close>

record profile =
  p_username :: string
  p_first_name :: string
  p_last_name :: string
  p_phone :: string

definition profile_of :: "user_row \<Rightarrow> profile" where
  "profile_of r = \<lparr>p_username = username r, p_first_name = first_name r,
                   p_last_name = last_name r, p_phone = phone r\<rparr>"

text \<open>\<open>SELECT username, first_name, last_name, phone FROM users\<close>.\<close>

definition select_all :: "db \<Rightarrow> profile result" where
  "select_all d = \<lparr>code = None, rows = map profile_of (users d)\<rparr>"

text \<open>src/models/user.js, lines 76 to 85.\<close>

definition User_all :: "db \<Rightarrow> error + profile list" where
  "User_all d =
     (let results = select_all d in
      case first_row (rows results) of
        None \<Rightarrow> Inl (ExpressError ''No users found'' 404)
      | Some r \<Rightarrow> Inr (rows results))"

record detail =
  d_username :: string
  d_first_name :: string
  d_last_name :: string
  d_phone :: string
  d_join_at :: nat
  d_last_login_at :: nat

definition detail_of :: "user_row \<Rightarrow> detail" where
  "detail_of r = \<lparr>d_username = username r, d_first_name = first_name r,
                  d_last_name = last_name r, d_phone = phone r,
                  d_join_at = join_at r, d_last_login_at = last_login_at r\<rparr>"

text \<open>
  \<open>SELECT username, first_name, last_name, phone, join_at, last_login_at FROM users
  WHERE username = $1\<close>.
\<close>

definition select_user :: "db \<Rightarrow> jsstr \<Rightarrow> detail result" where
  "select_user d u =
     \<lparr>code = None, rows = map detail_of (filter (\<lambda>r. param_eq u (username r)) (users d))\<rparr>"

text \<open>src/models/user.js, lines 96 to 107.\<close>

definition User_get :: "db \<Rightarrow> jsstr \<Rightarrow> error + detail" where
  "User_get d u =
     (let results = select_user d u in
      case first_row (rows results) of
        None \<Rightarrow> Inl (ExpressError (''No such user: '' @ str_of u) 404)
      | Some r \<Rightarrow> Inr r)"

section \<open>User.messagesFrom and User.messagesTo\<close>

text \<open>
  A row of the join: the message's columns, the username column the statement selects
  (\<open>to_username\<close> or \<open>from_username\<close>) and the joined user's names and phone.
\<close>

record joined =
  j_id :: nat
  j_username :: string
  j_body :: string
  j_sent_at :: nat
  j_read_at :: "nat option"
  j_first_name :: string
  j_last_name :: string
  j_phone :: string

text \<open>
  \<open>SELECT m.id, m.to_username, m.body, m.sent_at, m.read_at, u.first_name, u.last_name,
  u.phone FROM messages AS m JOIN users AS u ON m.to_username = u.username WHERE
  m.from_username = $1\<close>: one row for each message of that sender and each user row
  whose username is the message's recipient, in an order of the store's choosing.
\<close>

definition select_messages_from :: "nat list \<Rightarrow> db \<Rightarrow> jsstr \<Rightarrow> joined result" where
  "select_messages_from ord d a =
     \<lparr>code = None,
      rows = arrange ord (concat (map (\<lambda>m. map (\<lambda>u. \<lparr>j_id = msg_id m, j_username = to_username m,
                                          j_body = body m, j_sent_at = sent_at m,
                                          j_read_at = read_at m, j_first_name = first_name u,
                                          j_last_name = last_name u, j_phone = phone u\<rparr>)
                                  (filter (\<lambda>u. to_username m = username u) (users d)))
                         (filter (\<lambda>m. param_eq a (from_username m)) (messages d))))\<rparr>"

record sent_message =
  sm_id :: nat
  to_user :: profile
  sm_body :: string
  sm_sent_at :: nat
  sm_read_at :: "nat option"

text \<open>src/models/user.js, lines 117 to 143.\<close>

definition User_messagesFrom ::
  "nat list \<Rightarrow> db \<Rightarrow> jsstr \<Rightarrow> error + sent_message list" where
  "User_messagesFrom ord d a =
     (let results = select_messages_from ord d a in
      case first_row (rows results) of
        None \<Rightarrow> Inl (ExpressError (''No messages found from: '' @ str_of a) 404)
      | Some r \<Rightarrow>
          Inr (map (\<lambda>row. \<lparr>sm_id = j_id row,
                            to_user = \<lparr>p_username = j_username row,
                                        p_first_name = j_first_name row,
                                        p_last_name = j_last_name row,
                                        p_phone = j_phone row\<rparr>,
                            sm_body = j_body row, sm_sent_at = j_sent_at row,
                            sm_read_at = j_read_at row\<rparr>)
                   (rows results)))"

text \<open>
  The same statement with the two username columns exchanged: \<open>JOIN users AS u ON
  m.from_username = u.username WHERE m.to_username = $1\<close>.
\<close>

definition select_messages_to :: "nat list \<Rightarrow> db \<Rightarrow> jsstr \<Rightarrow> joined result" where
  "select_messages_to ord d b =
     \<lparr>code = None,
      rows = arrange ord (concat (map (\<lambda>m. map (\<lambda>u. \<lparr>j_id = msg_id m, j_username = from_username m,
                                          j_body = body m, j_sent_at = sent_at m,
                                          j_read_at = read_at m, j_first_name = first_name u,
                                          j_last_name = last_name u, j_phone = phone u\<rparr>)
                                  (filter (\<lambda>u. from_username m = username u) (users d)))
                         (filter (\<lambda>m. param_eq b (to_username m)) (messages d))))\<rparr>"

record received_message =
  rm_id :: nat
  from_user :: profile
  rm_body :: string
  rm_sent_at :: nat
  rm_read_at :: "nat option"

text \<open>src/models/user.js, lines 153 to 179.\<close>

definition User_messagesTo ::
  "nat list \<Rightarrow> db \<Rightarrow> jsstr \<Rightarrow> error + received_message list" where
  "User_messagesTo ord d b =
     (let results = select_messages_to ord d b in
      case first_row (rows results) of
        None \<Rightarrow> Inl (ExpressError (''No messages found to: '' @ str_of b) 404)
      | Some r \<Rightarrow>
          Inr (map (\<lambda>row. \<lparr>rm_id = j_id row,
                            from_user = \<lparr>p_username = j_username row,
                                          p_first_name = j_first_name row,
                                          p_last_name = j_last_name row,
                                          p_phone = j_phone row\<rparr>,
                            rm_body = j_body row, rm_sent_at = j_sent_at row,
                            rm_read_at = j_read_at row\<rparr>)
                   (rows results)))"

section \<open>The routes of src/routes/auth.js\<close>

text \<open>
  A handler ends by sending a JSON body (\<open>res.json\<close>: an optional message and the
  token) or by handing the caught error to \<open>next\<close>. Beside the response and the store
  it leaves, a handler's model returns the calls it made to the user store and the
  token signer, in the order it made them.
\<close>

datatype response = Json "string option" string | Next error

datatype call = Call_register | Call_authenticate | Call_updateLoginTimestamp | Call_sign

text \<open>
  POST /login, lines 13 to 28. The timestamp update reads \<open>now\<close> and writes at the
  places \<open>ord\<close> picks.
\<close>

definition post_login ::
  "env \<Rightarrow> nat list \<Rightarrow> nat \<Rightarrow> db \<Rightarrow> jsstr \<Rightarrow> jsstr \<Rightarrow> response \<times> db \<times> call list" where
  "post_login e ord now d u p =
     (case User_authenticate e d u p of
        Inl err \<Rightarrow> (Next err, d, [Call_authenticate])
      | Inr authenticated \<Rightarrow>
          if authenticated then
            (case User_updateLoginTimestamp ord now d u of
               (Inl err, d') \<Rightarrow> (Next err, d', [Call_authenticate, Call_updateLoginTimestamp])
             | (Inr s, d') \<Rightarrow>
                 (let token = jwt_sign e (Payload u) (SECRET_KEY e) in
                  (Json (Some ''Logged in!'') token, d',
                   [Call_authenticate, Call_updateLoginTimestamp, Call_sign])))
          else (Next (ExpressError ''Invalid username/password'' 400), d, [Call_authenticate]))"

text \<open>
  POST /register, lines 35 to 55. The insert reads \<open>now\<close>, the later timestamp update
  reads \<open>now'\<close> and writes at the places \<open>ord\<close> picks.
\<close>

definition post_register ::
  "env \<Rightarrow> nat list \<Rightarrow> nat \<Rightarrow> nat \<Rightarrow> db \<Rightarrow> registration \<Rightarrow> response \<times> db \<times> call list" where
  "post_register e ord now now' d f =
     (case User_register e now d f of
        (Inl err, d1) \<Rightarrow> (Next err, d1, [Call_register])
      | (Inr user, d1) \<Rightarrow>
          (let token = jwt_sign e (Payload (f_username f)) (SECRET_KEY e) in
           case User_updateLoginTimestamp ord now' d1 (f_username f) of
             (Inl err, d2) \<Rightarrow>
               (Next err, d2, [Call_register, Call_sign, Call_updateLoginTimestamp])
           | (Inr s, d2) \<Rightarrow>
               (Json None token, d2, [Call_register, Call_sign, Call_updateLoginTimestamp])))"

text \<open>
  Where a call stands in a handler's list of calls: \<open>before a b cs\<close> holds when both
  occur and the first \<open>a\<close> comes earlier than the first \<open>b\<close>.
\<close>

fun position :: "call \<Rightarrow> call list \<Rightarrow> nat option" where
  "position a [] = None"
| "position a (c # cs) =
     (if c = a then Some 0 else map_option Suc (position a cs))"

definition before :: "call \<Rightarrow> call \<Rightarrow> call list \<Rightarrow> bool" where
  "before a b cs =
     (case (position a cs, position b cs) of
        (Some i, Some j) \<Rightarrow> i < j
      | _ \<Rightarrow> False)"

section \<open>The store's constraints\<close>

text \<open>
  Modelled from the spec: the schema is not among the files. The specification
  gives \<open>username\<close> as the primary key of \<open>users\<close> and \<open>from_username\<close>, \<open>to_username\<close>
  as foreign keys into \<open>users\<close>.
\<close>

definition usernames :: "db \<Rightarrow> string list" where
  "usernames d = map username (users d)"

definition references_ok :: "db \<Rightarrow> message_row \<Rightarrow> bool" where
  "references_ok d m =
     (from_username m \<in> set (usernames d) \<and> to_username m \<in> set (usernames d))"

definition db_ok :: "db \<Rightarrow> bool" where
  "db_ok d = (distinct (usernames d) \<and> list_all (references_ok d) (messages d))"

text \<open>
  The stored messages a user sent and received, and what it means for an entry of a
  returned list to be a stored message with the public profile (username, first_name,
  last_name, phone) of a stored user who is its recipient, or its sender.
\<close>

definition sent_by :: "db \<Rightarrow> string \<Rightarrow> message_row list" where
  "sent_by d a = filter (\<lambda>m. from_username m = a) (messages d)"

definition received_by :: "db \<Rightarrow> string \<Rightarrow> message_row list" where
  "received_by d b = filter (\<lambda>m. to_username m = b) (messages d)"

definition sent_of :: "db \<Rightarrow> message_row \<Rightarrow> sent_message \<Rightarrow> bool" where
  "sent_of d m s =
     (sm_id s = msg_id m \<and> sm_body s = body m \<and> sm_sent_at s = sent_at m
      \<and> sm_read_at s = read_at m
      \<and> (\<exists>x \<in> set (users d). username x = to_username m \<and> to_user s = profile_of x))"

definition received_of :: "db \<Rightarrow> message_row \<Rightarrow> received_message \<Rightarrow> bool" where
  "received_of d m s =
     (rm_id s = msg_id m \<and> rm_body s = body m \<and> rm_sent_at s = sent_at m
      \<and> rm_read_at s = read_at m
      \<and> (\<exists>x \<in> set (users d). username x = from_username m \<and> from_user s = profile_of x))"

section \<open>Example data\<close>

text \<open>
  A concrete environment and payload for evaluating the operations. The stand-in
  hasher prefixes the password; its comparison recomputes the prefix.
\<close>

definition env0 :: env where
  "env0 = \<lparr>BCRYPT_WORK_FACTOR = 12, SECRET_KEY = ''secret'',
           bcrypt_hash = (\<lambda>p w. ''#'' @ p),
           bcrypt_compare = (\<lambda>p h. h = ''#'' @ p),
           jwt_sign = (\<lambda>pl k. k @ ''.'' @ str_of (claim_username pl))\<rparr>"

definition db0 :: db where
  "db0 = \<lparr>users = [], messages = []\<rparr>"

definition alice :: registration where
  "alice = \<lparr>f_username = Some ''alice'', f_password = Some ''pw'',
            f_first_name = Some ''Alice'', f_last_name = Some ''A'',
            f_phone = Some ''555''\<rparr>"

text \<open>
  A store with three users and three messages: \<open>alice\<close> wrote twice to \<open>bob\<close>, \<open>bob\<close>
  once to \<open>alice\<close>, and \<open>carol\<close> neither sent nor received anything.
\<close>

definition alice_row :: user_row where
  "alice_row = \<lparr>username = ''alice'', password = ''#pw'', first_name = ''Alice'',
                last_name = ''A'', phone = ''555'', join_at = 10, last_login_at = 10\<rparr>"

definition bob_row :: user_row where
  "bob_row = \<lparr>username = ''bob'', password = ''#hunter2'', first_name = ''Bob'',
              last_name = ''B'', phone = ''666'', join_at = 11, last_login_at = 12\<rparr>"

definition carol_row :: user_row where
  "carol_row = \<lparr>username = ''carol'', password = ''#c'', first_name = ''Carol'',
                last_name = ''C'', phone = ''777'', join_at = 13, last_login_at = 13\<rparr>"

definition db1 :: db where
  "db1 = \<lparr>users = [alice_row, bob_row, carol_row],
          messages =
            [\<lparr>msg_id = 1, from_username = ''alice'', to_username = ''bob'', body = ''hi'',
              sent_at = 14, read_at = None\<rparr>,
             \<lparr>msg_id = 2, from_username = ''bob'', to_username = ''alice'', body = ''yo'',
              sent_at = 15, read_at = Some 16\<rparr>,
             \<lparr>msg_id = 3, from_username = ''alice'', to_username = ''bob'', body = ''bye'',
              sent_at = 17, read_at = None\<rparr>]\<rparr>"

section \<open>Registration: validation and duplicates\<close>

lemma falsy_iff: "falsy v \<longleftrightarrow> v = None \<or> v = Some []"
  by (cases v) auto

lemma register_falsy:
  "falsy (f_username f) \<or> falsy (f_password f) \<or> falsy (f_first_name f)
     \<or> falsy (f_last_name f) \<or> falsy (f_phone f)
   \<Longrightarrow> User_register e now d f = (Inl ValidationError, d)"
  by (simp add: User_register_def ValidationError_def)

lemma register_valid:
  assumes "f_username f = Some u" "f_password f = Some p" "f_first_name f = Some fn"
    "f_last_name f = Some ln" "f_phone f = Some ph"
    "u \<noteq> []" "p \<noteq> []" "fn \<noteq> []" "ln \<noteq> []" "ph \<noteq> []"
  shows "User_register e now d f =
     (case insert_user now d u (bcrypt_hash e p (BCRYPT_WORK_FACTOR e)) fn ln ph of
        Inl err \<Rightarrow> (Inl err, d)
      | Inr (res, d') \<Rightarrow> (Inr (first_row (rows res)), d'))"
  using assms by (simp add: User_register_def insert_user_def Let_def)

text \<open>
  The branch that throws the conflict error is dead: whatever the input,
  \<open>register\<close> does not fail with it.
\<close>

lemma register_never_conflict:
  "fst (User_register e now d f) \<noteq> Inl (ConflictError u)"
  by (auto simp: User_register_def insert_user_def ConflictError_def Let_def
      split: option.splits sum.splits prod.splits)

text \<open>
  C5. When at least one of username, password, first_name, last_name and phone is
  missing or empty, \<open>User.register\<close> fails with the validation error ("All fields are
  required", 400) and the store it leaves is the store it was given: nothing is
  written.
\<close>

theorem register_missing_field_no_write:
  assumes "v \<in> {f_username f, f_password f, f_first_name f, f_last_name f, f_phone f}"
    and "v = None \<or> v = Some []"
  shows "User_register e now d f = (Inl ValidationError, d)"
proof -
  from assms(2) have "falsy v" by (simp add: falsy_iff)
  with assms(1) have "falsy (f_username f) \<or> falsy (f_password f) \<or> falsy (f_first_name f)
     \<or> falsy (f_last_name f) \<or> falsy (f_phone f)"
    by auto
  then show ?thesis by (rule register_falsy)
qed

theorem register_missing_field_no_write_witness:
  "User_register env0 10 db0 (alice\<lparr>f_phone := None\<rparr>) = (Inl ValidationError, db0)
   \<and> User_register env0 10 db0 (alice\<lparr>f_password := Some []\<rparr>) = (Inl ValidationError, db0)"
  using register_missing_field_no_write [of None "alice\<lparr>f_phone := None\<rparr>" env0 10 db0]
    register_missing_field_no_write [of "Some []" "alice\<lparr>f_password := Some []\<rparr>" env0 10 db0]
  by simp

text \<open>
  C1. The code at a registration whose username is already stored: the insert is
  rejected by the store, the rejection is thrown out of \<open>User.register\<close> as it is (a
  database error with code 23505 and no status), and the store is unchanged. The
  conflict error ("Username ... already exists", 400) that the claim names is not
  what the caller gets.
\<close>

theorem register_existing_username_raw_database_error:
  assumes "f_username f = Some u" "f_password f = Some p" "f_first_name f = Some fn"
    "f_last_name f = Some ln" "f_phone f = Some ph"
    and "u \<noteq> []" "p \<noteq> []" "fn \<noteq> []" "ln \<noteq> []" "ph \<noteq> []"
    and "u \<in> set (usernames d)"
  shows "User_register e now d f = (Inl (DatabaseError ''23505''), d)
     \<and> fst (User_register e now d f) \<noteq> Inl (ConflictError u)"
  using assms by (simp add: register_valid insert_user_def usernames_def ConflictError_def)

text \<open>
  The run of the claim: registering \<open>alice\<close> twice. The first call succeeds and
  returns the created row; the second fails with the store's raw error.
\<close>

theorem register_twice_witness:
  "fst (User_register env0 10 db0 alice) =
     Inr (Some \<lparr>reg_username = ''alice'', reg_password = ''#pw'', reg_first_name = ''Alice'',
                reg_last_name = ''A'', reg_phone = ''555''\<rparr>)
   \<and> User_register env0 20 (snd (User_register env0 10 db0 alice)) alice =
       (Inl (DatabaseError ''23505''), snd (User_register env0 10 db0 alice))
   \<and> fst (User_register env0 20 (snd (User_register env0 10 db0 alice)) alice)
       \<noteq> Inl (ConflictError ''alice'')"
proof -
  have first: "User_register env0 10 db0 alice =
     (Inr (Some \<lparr>reg_username = ''alice'', reg_password = ''#pw'', reg_first_name = ''Alice'',
                 reg_last_name = ''A'', reg_phone = ''555''\<rparr>),
      \<lparr>users = [\<lparr>username = ''alice'', password = ''#pw'', first_name = ''Alice'',
                 last_name = ''A'', phone = ''555'', join_at = 10, last_login_at = 10\<rparr>],
       messages = []\<rparr>)"
    by (simp add: User_register_def insert_user_def alice_def env0_def db0_def Let_def)
  have stored: "''alice'' \<in> set (usernames (snd (User_register env0 10 db0 alice)))"
    by (simp add: first usernames_def)
  have "User_register env0 20 (snd (User_register env0 10 db0 alice)) alice =
          (Inl (DatabaseError ''23505''), snd (User_register env0 10 db0 alice))
        \<and> fst (User_register env0 20 (snd (User_register env0 10 db0 alice)) alice)
            \<noteq> Inl (ConflictError ''alice'')"
    using stored
    by (intro register_existing_username_raw_database_error
          [where f = alice and u = "''alice''" and p = "''pw''" and fn = "''Alice''"
             and ln = "''A''" and ph = "''555''"])
       (simp_all add: alice_def)
  with first show ?thesis by (simp add: ConflictError_def)
qed

section \<open>Row order\<close>

lemma mset_arrange: "mset (arrange ks xs) = mset xs"
proof (induction ks arbitrary: xs)
  case Nil
  then show ?case by simp
next
  case (Cons k ks)
  show ?case
  proof (cases xs)
    case Nil
    then show ?thesis by simp
  next
    case (Cons y ys)
    let ?i = "k mod length xs"
    from Cons have i: "?i < length xs" by simp
    have "mset xs = mset (take ?i xs @ xs ! ?i # drop (Suc ?i) xs)"
      using id_take_nth_drop [OF i] by simp
    with Cons Cons.IH [of "take ?i xs @ drop (Suc ?i) xs"] show ?thesis
      by (simp add: Let_def)
  qed
qed

lemma set_arrange: "set (arrange ks xs) = set xs"
  using mset_arrange [of ks xs] by (rule mset_eq_setD)

lemma length_arrange: "length (arrange ks xs) = length xs"
  using mset_arrange [of ks xs] by (rule mset_eq_length)

lemma arrange_Nil_iff: "arrange ks xs = [] \<longleftrightarrow> xs = []"
  using length_arrange [of ks xs] by (metis length_0_conv)

lemma arrange_complete: "mset ys = mset xs \<Longrightarrow> \<exists>ks. arrange ks xs = ys"
proof (induction ys arbitrary: xs)
  case Nil
  then have "xs = []" by simp
  then have "arrange [] xs = []" by simp
  then show ?case by blast
next
  case (Cons y ys)
  then have "y \<in> set xs" by (metis list.set_intros(1) mset_eq_setD)
  then obtain i where i: "i < length xs" "xs ! i = y" by (auto simp: in_set_conv_nth)
  let ?rest = "take i xs @ drop (Suc i) xs"
  have "mset xs = mset ?rest + {#y#}"
    using id_take_nth_drop [OF i(1)] i(2) by (metis add_mset_add_single mset.simps(2) mset_append union_mset_add_mset_right)
  with Cons.prems have "mset ys = mset ?rest" by simp
  then obtain ks where ks: "arrange ks ?rest = ys" using Cons.IH by blast
  from i obtain x xs' where xs: "xs = x # xs'" by (cases xs) auto
  with i ks have "arrange (i # ks) xs = y # ys" by (simp add: Let_def)
  then show ?case by blast
qed

lemma mset_place: "mset (place ks new old) = mset new + mset old"
proof (induction ks new old rule: place.induct)
  case (1 ks old)
  then show ?case by simp
next
  case (2 x xs old)
  then show ?case by simp
next
  case (3 k ks x xs old)
  have "mset (take (k mod (length old + 1)) old @ x # drop (k mod (length old + 1)) old)
      = add_mset x (mset old)"
    by (metis append_take_drop_id mset.simps(2) mset_append union_mset_add_mset_right)
  with 3 show ?case by (simp add: Let_def)
qed

lemma set_place: "set (place ks new old) = set new \<union> set old"
  using mset_place [of ks new old] by (metis mset_append mset_eq_setD set_append)

lemma length_place: "length (place ks new old) = length new + length old"
  using mset_place [of ks new old] by (metis length_append mset_append mset_eq_length)

section \<open>Looking a user up\<close>

lemma param_eq_iff: "param_eq u c \<longleftrightarrow> u = Some c"
  by (cases u) auto

lemma filter_unknown:
  "name \<notin> set (usernames d) \<Longrightarrow> filter (\<lambda>r. param_eq (Some name) (username r)) (users d) = []"
  by (auto simp: usernames_def filter_empty_conv)

lemma filter_absent: "filter (\<lambda>r. param_eq None (username r)) xs = []"
  by simp


lemma authenticate_no_row:
  "filter (\<lambda>r. param_eq u (username r)) (users d) = []
   \<Longrightarrow> User_authenticate e d u p = Inl AuthError"
  by (simp add: User_authenticate_def select_password_def AuthError_def)


lemma authenticate_Inr_row:
  assumes "User_authenticate e d u p = Inr b"
  shows "\<exists>r rs. filter (\<lambda>r. param_eq u (username r)) (users d) = r # rs"
proof (cases "filter (\<lambda>r. param_eq u (username r)) (users d)")
  case Nil
  with assms show ?thesis by (simp add: authenticate_no_row)
next
  case (Cons r rs)
  then show ?thesis by blast
qed

lemma update_row:
  "filter (\<lambda>r. param_eq u (username r)) (users d) = r # rs
   \<Longrightarrow> fst (User_updateLoginTimestamp ord now d u) =
         Inr \<lparr>st_username = username r, st_last_login_at = now\<rparr>"
  by (simp add: User_updateLoginTimestamp_def update_last_login_def)

lemma filter_none_rest:
  "filter P xs = [] \<Longrightarrow> filter (\<lambda>x. \<not> P x) xs = xs"
  by (induction xs) (auto split: if_splits)

lemma update_no_row:
  "filter (\<lambda>r. param_eq u (username r)) (users d) = []
   \<Longrightarrow> User_updateLoginTimestamp ord now d u =
         (Inl (NotFoundError (''No such user: '' @ str_of u)), d)"
  by (simp add: User_updateLoginTimestamp_def update_last_login_def NotFoundError_def
      filter_none_rest)

lemma login_true:
  assumes "User_authenticate e d u p = Inr True"
  shows "post_login e ord now d u p =
           (Json (Some ''Logged in!'') (jwt_sign e (Payload u) (SECRET_KEY e)),
            snd (User_updateLoginTimestamp ord now d u),
            [Call_authenticate, Call_updateLoginTimestamp, Call_sign])"
proof -
  from assms obtain r rs where "filter (\<lambda>r. param_eq u (username r)) (users d) = r # rs"
    using authenticate_Inr_row by blast
  then have "fst (User_updateLoginTimestamp ord now d u) =
      Inr \<lparr>st_username = username r, st_last_login_at = now\<rparr>"
    by (rule update_row)
  with assms show ?thesis
    by (cases "User_updateLoginTimestamp ord now d u") (simp add: post_login_def)
qed

lemma login_false:
  assumes "User_authenticate e d u p = Inr False"
  shows "post_login e ord now d u p = (Next AuthError, d, [Call_authenticate])"
  using assms by (simp add: post_login_def AuthError_def)


lemma authenticate_Inr_Some:
  assumes "User_authenticate e d u p = Inr b"
  shows "\<exists>name. u = Some name \<and> name \<in> set (usernames d)"
proof -
  from assms obtain r rs where *: "filter (\<lambda>r. param_eq u (username r)) (users d) = r # rs"
    using authenticate_Inr_row by blast
  then have "r \<in> set (filter (\<lambda>r. param_eq u (username r)) (users d))" by simp
  then show ?thesis by (auto simp: param_eq_iff usernames_def)
qed

section \<open>Authentication and login\<close>




text \<open>
  C4. POST /login: when \<open>User.authenticate\<close> returns true, the handler calls
  \<open>updateLoginTimestamp\<close> (which succeeds), then signs the payload holding the
  username with the secret key, and sends the token; the calls are made in this
  order. When \<open>User.authenticate\<close> returns false, the handler hands the
  authentication error to \<open>next\<close>, leaves the store as it was, and neither updates the
  timestamp nor signs a token.
\<close>

theorem login_flow:
  "(User_authenticate e d u p = Inr True \<longrightarrow>
      (\<exists>name s. u = Some name
         \<and> fst (User_updateLoginTimestamp ord now d u) = Inr s
         \<and> post_login e ord now d u p =
             (Json (Some ''Logged in!'') (jwt_sign e (Payload (Some name)) (SECRET_KEY e)),
              snd (User_updateLoginTimestamp ord now d u),
              [Call_authenticate, Call_updateLoginTimestamp, Call_sign])))
   \<and> (User_authenticate e d u p = Inr False \<longrightarrow>
        post_login e ord now d u p = (Next AuthError, d, [Call_authenticate]))"
proof (intro conjI impI)
  assume t: "User_authenticate e d u p = Inr True"
  then obtain name where u: "u = Some name" using authenticate_Inr_Some by blast
  from t obtain r rs where "filter (\<lambda>r. param_eq u (username r)) (users d) = r # rs"
    using authenticate_Inr_row by blast
  then have "fst (User_updateLoginTimestamp ord now d u) =
      Inr \<lparr>st_username = username r, st_last_login_at = now\<rparr>"
    by (rule update_row)
  with u login_true [OF t, of ord now]
  show "\<exists>name s. u = Some name
         \<and> fst (User_updateLoginTimestamp ord now d u) = Inr s
         \<and> post_login e ord now d u p =
             (Json (Some ''Logged in!'') (jwt_sign e (Payload (Some name)) (SECRET_KEY e)),
              snd (User_updateLoginTimestamp ord now d u),
              [Call_authenticate, Call_updateLoginTimestamp, Call_sign])"
    by simp
next
  assume "User_authenticate e d u p = Inr False"
  then show "post_login e ord now d u p = (Next AuthError, d, [Call_authenticate])"
    by (rule login_false)
qed

theorem login_flow_witness:
  "User_authenticate env0 db1 (Some ''alice'') (Some ''pw'') = Inr True
   \<and> post_login env0 [] 20 db1 (Some ''alice'') (Some ''pw'') =
       (Json (Some ''Logged in!'') ''secret.alice'',
        db1\<lparr>users := [bob_row, carol_row, alice_row\<lparr>last_login_at := 20\<rparr>]\<rparr>,
        [Call_authenticate, Call_updateLoginTimestamp, Call_sign])
   \<and> User_authenticate env0 db1 (Some ''alice'') (Some ''pwx'') = Inr False
   \<and> post_login env0 [] 20 db1 (Some ''alice'') (Some ''pwx'') =
       (Next AuthError, db1, [Call_authenticate])"
proof -
  have yes: "User_authenticate env0 db1 (Some ''alice'') (Some ''pw'') = Inr True"
    by (simp add: User_authenticate_def select_password_def db1_def env0_def
        alice_row_def bob_row_def carol_row_def)
  have no: "User_authenticate env0 db1 (Some ''alice'') (Some ''pwx'') = Inr False"
    by (simp add: User_authenticate_def select_password_def db1_def env0_def
        alice_row_def bob_row_def carol_row_def)
  have upd: "snd (User_updateLoginTimestamp [] 20 db1 (Some ''alice'')) =
      db1\<lparr>users := [bob_row, carol_row, alice_row\<lparr>last_login_at := 20\<rparr>]\<rparr>"
    by (simp add: User_updateLoginTimestamp_def update_last_login_def db1_def
        alice_row_def bob_row_def carol_row_def)
  have tok: "jwt_sign env0 (Payload (Some ''alice'')) (SECRET_KEY env0) = ''secret.alice''"
    by (simp add: env0_def)
  from yes no upd tok
    login_flow [where e = env0 and d = db1 and u = "Some ''alice''" and p = "Some ''pw''"
      and now = 20 and ord = "[]"]
    login_flow [where e = env0 and d = db1 and u = "Some ''alice''" and p = "Some ''pwx''"
      and now = 20 and ord = "[]"]
  show ?thesis by auto
qed




section \<open>Registration through the route\<close>

lemma filter_known:
  assumes "name \<in> set (usernames d)"
  shows "\<exists>r rs. filter (\<lambda>r. param_eq (Some name) (username r)) (users d) = r # rs"
proof (cases "filter (\<lambda>r. param_eq (Some name) (username r)) (users d)")
  case Nil
  with assms show ?thesis by (auto simp: usernames_def filter_empty_conv)
next
  case (Cons r rs)
  then show ?thesis by blast
qed

lemma register_Inr_stored:
  assumes "User_register e now d f = (Inr user, d1)"
  shows "\<exists>u. f_username f = Some u \<and> u \<in> set (usernames d1)"
  using assms
  by (auto simp: User_register_def insert_user_def Let_def usernames_def
      split: if_splits option.splits)

lemma register_Inl_unchanged:
  assumes "User_register e now d f = (Inl err, d1)"
  shows "d1 = d"
  using assms
  by (auto simp: User_register_def insert_user_def Let_def
      split: if_splits option.splits)

text \<open>
  C2, as the code has it. POST /register calls \<open>User.register\<close> first. When that fails,
  the handler hands the same error to \<open>next\<close>, makes no other call, and the store is as
  it was. When it succeeds, the handler signs the token, then calls
  \<open>updateLoginTimestamp\<close> (which succeeds), and only then sends the token.
\<close>

theorem post_register_flow:
  "(User_register e now d f = (Inl err, d1) \<longrightarrow>
       d1 = d \<and> post_register e ord now now' d f = (Next err, d, [Call_register]))
   \<and> (User_register e now d f = (Inr user, d1) \<longrightarrow>
       (\<exists>s. fst (User_updateLoginTimestamp ord now' d1 (f_username f)) = Inr s)
       \<and> post_register e ord now now' d f =
           (Json None (jwt_sign e (Payload (f_username f)) (SECRET_KEY e)),
            snd (User_updateLoginTimestamp ord now' d1 (f_username f)),
            [Call_register, Call_sign, Call_updateLoginTimestamp]))"
proof (intro conjI impI)
  assume fail: "User_register e now d f = (Inl err, d1)"
  then show "d1 = d" by (rule register_Inl_unchanged)
  with fail show "post_register e ord now now' d f = (Next err, d, [Call_register])"
    by (simp add: post_register_def)
next
  assume ok: "User_register e now d f = (Inr user, d1)"
  then obtain u where u: "f_username f = Some u" "u \<in> set (usernames d1)"
    using register_Inr_stored by blast
  then obtain r rs where
    "filter (\<lambda>r. param_eq (f_username f) (username r)) (users d1) = r # rs"
    using filter_known by force
  then have upd: "fst (User_updateLoginTimestamp ord now' d1 (f_username f)) =
      Inr \<lparr>st_username = username r, st_last_login_at = now'\<rparr>"
    by (rule update_row)
  then show "\<exists>s. fst (User_updateLoginTimestamp ord now' d1 (f_username f)) = Inr s"
    by blast
  from ok upd show "post_register e ord now now' d f =
           (Json None (jwt_sign e (Payload (f_username f)) (SECRET_KEY e)),
            snd (User_updateLoginTimestamp ord now' d1 (f_username f)),
            [Call_register, Call_sign, Call_updateLoginTimestamp])"
    by (cases "User_updateLoginTimestamp ord now' d1 (f_username f)")
       (simp add: post_register_def)
qed

lemma register_alice:
  "User_register env0 10 db0 alice =
     (Inr (Some \<lparr>reg_username = ''alice'', reg_password = ''#pw'', reg_first_name = ''Alice'',
                 reg_last_name = ''A'', reg_phone = ''555''\<rparr>),
      \<lparr>users = [alice_row], messages = []\<rparr>)"
  by (simp add: User_register_def insert_user_def alice_def env0_def db0_def Let_def
      alice_row_def)

lemma update_alice:
  "User_updateLoginTimestamp [] 20 \<lparr>users = [alice_row], messages = []\<rparr> (Some ''alice'') =
     (Inr \<lparr>st_username = ''alice'', st_last_login_at = 20\<rparr>,
      \<lparr>users = [alice_row\<lparr>last_login_at := 20\<rparr>], messages = []\<rparr>)"
  by (simp add: User_updateLoginTimestamp_def update_last_login_def alice_row_def)

lemma alice_username: "f_username alice = Some ''alice''"
  by (simp add: alice_def)

lemma alice_token: "jwt_sign env0 (Payload (Some ''alice'')) (SECRET_KEY env0) = ''secret.alice''"
  by (simp add: env0_def)

theorem post_register_flow_witness:
  "User_register env0 10 db0 alice =
     (Inr (Some \<lparr>reg_username = ''alice'', reg_password = ''#pw'', reg_first_name = ''Alice'',
                 reg_last_name = ''A'', reg_phone = ''555''\<rparr>),
      \<lparr>users = [alice_row], messages = []\<rparr>)
   \<and> post_register env0 [] 10 20 db0 alice =
       (Json None ''secret.alice'',
        \<lparr>users = [alice_row\<lparr>last_login_at := 20\<rparr>], messages = []\<rparr>,
        [Call_register, Call_sign, Call_updateLoginTimestamp])
   \<and> User_register env0 10 db0 (alice\<lparr>f_phone := None\<rparr>) = (Inl ValidationError, db0)
   \<and> post_register env0 [] 10 20 db0 (alice\<lparr>f_phone := None\<rparr>) =
       (Next ValidationError, db0, [Call_register])"
proof -
  have fail: "User_register env0 10 db0 (alice\<lparr>f_phone := None\<rparr>) = (Inl ValidationError, db0)"
    by (simp add: register_falsy)
  from register_alice fail
    post_register_flow [where e = env0 and ord = "[]" and now = 10 and now' = 20 and d = db0
      and f = alice
      and user = "Some \<lparr>reg_username = ''alice'', reg_password = ''#pw'',
                        reg_first_name = ''Alice'', reg_last_name = ''A'', reg_phone = ''555''\<rparr>"
      and ?d1.0 = "\<lparr>users = [alice_row], messages = []\<rparr>"]
    post_register_flow [where e = env0 and ord = "[]" and now = 10 and now' = 20 and d = db0
      and f = "alice\<lparr>f_phone := None\<rparr>" and err = ValidationError and ?d1.0 = db0]
  show ?thesis by (simp add: alice_username alice_token update_alice)
qed

text \<open>
  C2, as the claim states it, fails: in the successful registration of \<open>alice\<close> the token
  is signed before \<open>updateLoginTimestamp\<close> is called, not after it.
\<close>

theorem post_register_order_counterexample:
  "post_register env0 [] 10 20 db0 alice =
       (Json None ''secret.alice'',
        \<lparr>users = [alice_row\<lparr>last_login_at := 20\<rparr>], messages = []\<rparr>,
        [Call_register, Call_sign, Call_updateLoginTimestamp])
   \<and> before Call_sign Call_updateLoginTimestamp (snd (snd (post_register env0 [] 10 20 db0 alice)))
   \<and> \<not> before Call_updateLoginTimestamp Call_sign
          (snd (snd (post_register env0 [] 10 20 db0 alice)))"
proof -
  have run: "post_register env0 [] 10 20 db0 alice =
       (Json None ''secret.alice'',
        \<lparr>users = [alice_row\<lparr>last_login_at := 20\<rparr>], messages = []\<rparr>,
        [Call_register, Call_sign, Call_updateLoginTimestamp])"
    by (simp add: post_register_def register_alice alice_username update_alice alice_token)
  show ?thesis by (simp add: run before_def)
qed

section \<open>The timestamp update\<close>

lemma update_store:
  "snd (User_updateLoginTimestamp ord now d u) =
     d\<lparr>users := place ord
                    (map (\<lambda>r. r\<lparr>last_login_at := now\<rparr>)
                       (filter (\<lambda>r. u = Some (username r)) (users d)))
                    (filter (\<lambda>r. u \<noteq> Some (username r)) (users d))\<rparr>"
  by (simp add: User_updateLoginTimestamp_def update_last_login_def param_eq_iff
      split: option.splits)

lemma mset_split_update:
  "mset (map f (filter P xs)) + mset (filter (\<lambda>x. \<not> P x) xs) =
     mset (map (\<lambda>x. if P x then f x else x) xs)"
  by (induction xs) auto

lemma update_users_mset:
  "mset (users (snd (User_updateLoginTimestamp ord now d (Some name)))) =
     image_mset (\<lambda>r. if username r = name then r\<lparr>last_login_at := now\<rparr> else r)
       (mset (users d))"
proof -
  let ?new = "map (\<lambda>r. r\<lparr>last_login_at := now\<rparr>) (filter (\<lambda>r. username r = name) (users d))"
  let ?old = "filter (\<lambda>r. \<not> username r = name) (users d)"
  have "users (snd (User_updateLoginTimestamp ord now d (Some name))) = place ord ?new ?old"
    by (simp add: update_store eq_commute [of name])
  then have "mset (users (snd (User_updateLoginTimestamp ord now d (Some name)))) =
      mset ?new + mset ?old"
    by (simp only: mset_place)
  also have "\<dots> = mset (map (\<lambda>r. if username r = name then r\<lparr>last_login_at := now\<rparr> else r)
                        (users d))"
    by (rule mset_split_update)
  finally show ?thesis by simp
qed

text \<open>
  C9. \<open>User.updateLoginTimestamp(name)\<close> on a store where \<open>name\<close> exists succeeds and
  returns the username with the new timestamp. In the store it leaves, the messages
  are untouched, and the users table holds, in some order, exactly the rows it held
  before, where every row of \<open>name\<close> has the new timestamp as its \<open>last_login_at\<close> and is
  otherwise as it was (username, password hash, first_name, last_name, phone and join_at
  included), and every row of another user is as it was altogether. Where the store
  keeps the rows is left open.
\<close>

theorem updateLoginTimestamp_frame:
  assumes "name \<in> set (usernames d)"
    and "User_updateLoginTimestamp ord now d (Some name) = (res, d')"
  shows "res = Inr \<lparr>st_username = name, st_last_login_at = now\<rparr>
     \<and> messages d' = messages d
     \<and> mset (users d') =
         image_mset (\<lambda>r. if username r = name then r\<lparr>last_login_at := now\<rparr> else r)
           (mset (users d))
     \<and> length (users d') = length (users d)
     \<and> (\<forall>r \<in> set (users d). username r \<noteq> name \<longrightarrow> r \<in> set (users d'))
     \<and> (\<forall>r \<in> set (users d). username r = name \<longrightarrow>
           r\<lparr>last_login_at := now\<rparr> \<in> set (users d'))
     \<and> (\<forall>r' \<in> set (users d'). \<exists>r \<in> set (users d).
           username r' = username r \<and> password r' = password r
         \<and> first_name r' = first_name r \<and> last_name r' = last_name r
         \<and> phone r' = phone r \<and> join_at r' = join_at r
         \<and> (if username r = name then r' = r\<lparr>last_login_at := now\<rparr> else r' = r))"
proof -
  from assms(1) obtain r rs where
    rows: "filter (\<lambda>r. param_eq (Some name) (username r)) (users d) = r # rs"
    using filter_known by blast
  then have "r \<in> set (filter (\<lambda>r. param_eq (Some name) (username r)) (users d))"
    by simp
  then have "username r = name" by simp
  with update_row [OF rows, of ord now] assms(2)
  have res: "res = Inr \<lparr>st_username = name, st_last_login_at = now\<rparr>" by simp
  from assms(2) have d': "d' = snd (User_updateLoginTimestamp ord now d (Some name))"
    by simp
  have msgs: "messages d' = messages d"
    by (simp add: d' update_store)
  have bag: "mset (users d') =
         image_mset (\<lambda>r. if username r = name then r\<lparr>last_login_at := now\<rparr> else r)
           (mset (users d))"
    unfolding d' by (rule update_users_mset)
  have len: "length (users d') = length (users d)"
    using arg_cong [OF bag, of size] by simp
  from bag have "set_mset (mset (users d')) =
      set_mset (image_mset (\<lambda>r. if username r = name then r\<lparr>last_login_at := now\<rparr> else r)
        (mset (users d)))"
    by (rule arg_cong)
  then have elems: "set (users d') =
      (\<lambda>r. if username r = name then r\<lparr>last_login_at := now\<rparr> else r) ` set (users d)"
    by (simp only: set_mset_mset set_image_mset)
  have other: "\<forall>r \<in> set (users d). username r \<noteq> name \<longrightarrow> r \<in> set (users d')"
    unfolding elems by force
  have own: "\<forall>r \<in> set (users d). username r = name \<longrightarrow>
           r\<lparr>last_login_at := now\<rparr> \<in> set (users d')"
    unfolding elems by force
  have origin: "\<forall>r' \<in> set (users d'). \<exists>r \<in> set (users d).
           username r' = username r \<and> password r' = password r
         \<and> first_name r' = first_name r \<and> last_name r' = last_name r
         \<and> phone r' = phone r \<and> join_at r' = join_at r
         \<and> (if username r = name then r' = r\<lparr>last_login_at := now\<rparr> else r' = r)"
    unfolding elems by auto
  show ?thesis
    using res msgs bag len other own origin by (intro conjI)
qed

text \<open>
  The update of \<open>bob\<close> in the example store, where the store writes the new version of
  the row after the rows it already holds.
\<close>

theorem updateLoginTimestamp_frame_witness:
  "''bob'' \<in> set (usernames db1)
   \<and> User_updateLoginTimestamp [] 20 db1 (Some ''bob'') =
       (Inr \<lparr>st_username = ''bob'', st_last_login_at = 20\<rparr>,
        db1\<lparr>users := [alice_row, carol_row, bob_row\<lparr>last_login_at := 20\<rparr>]\<rparr>)
   \<and> messages (db1\<lparr>users := [alice_row, carol_row, bob_row\<lparr>last_login_at := 20\<rparr>]\<rparr>)
       = messages db1
   \<and> mset (users (db1\<lparr>users := [alice_row, carol_row, bob_row\<lparr>last_login_at := 20\<rparr>]\<rparr>)) =
       image_mset (\<lambda>r. if username r = ''bob'' then r\<lparr>last_login_at := 20\<rparr> else r)
         (mset (users db1))"
proof -
  have known: "''bob'' \<in> set (usernames db1)"
    by (simp add: usernames_def db1_def alice_row_def bob_row_def carol_row_def)
  have run: "User_updateLoginTimestamp [] 20 db1 (Some ''bob'') =
       (Inr \<lparr>st_username = ''bob'', st_last_login_at = 20\<rparr>,
        db1\<lparr>users := [alice_row, carol_row, bob_row\<lparr>last_login_at := 20\<rparr>]\<rparr>)"
    by (simp add: User_updateLoginTimestamp_def update_last_login_def db1_def
        alice_row_def bob_row_def carol_row_def)
  note frame = updateLoginTimestamp_frame [OF known run]
  from frame have msgs: "messages (db1\<lparr>users := [alice_row, carol_row,
      bob_row\<lparr>last_login_at := 20\<rparr>]\<rparr>) = messages db1"
    by (rule conjunct1 [OF conjunct2])
  from frame have bag: "mset (users (db1\<lparr>users := [alice_row, carol_row,
      bob_row\<lparr>last_login_at := 20\<rparr>]\<rparr>)) =
       image_mset (\<lambda>r. if username r = ''bob'' then r\<lparr>last_login_at := 20\<rparr> else r)
         (mset (users db1))"
    by (rule conjunct1 [OF conjunct2 [OF conjunct2]])
  show ?thesis
    using known run msgs bag by (intro conjI)
qed

section \<open>Registration, then lookup\<close>

lemma get_row:
  "filter (\<lambda>r. param_eq u (username r)) (users d) = r # rs
   \<Longrightarrow> User_get d u = Inr (detail_of r)"
  by (simp add: User_get_def select_user_def)

lemma get_no_row:
  "filter (\<lambda>r. param_eq u (username r)) (users d) = []
   \<Longrightarrow> User_get d u = Inl (NotFoundError (''No such user: '' @ str_of u))"
  by (simp add: User_get_def select_user_def NotFoundError_def)

lemma register_fresh:
  assumes "f_username f = Some u" "f_password f = Some p" "f_first_name f = Some fn"
    "f_last_name f = Some ln" "f_phone f = Some ph"
    and "u \<noteq> []" "p \<noteq> []" "fn \<noteq> []" "ln \<noteq> []" "ph \<noteq> []"
    and "u \<notin> set (usernames d)"
  shows "User_register e now d f =
     (Inr (Some \<lparr>reg_username = u, reg_password = bcrypt_hash e p (BCRYPT_WORK_FACTOR e),
                 reg_first_name = fn, reg_last_name = ln, reg_phone = ph\<rparr>),
      d\<lparr>users := users d @
          [\<lparr>username = u, password = bcrypt_hash e p (BCRYPT_WORK_FACTOR e),
            first_name = fn, last_name = ln, phone = ph, join_at = now,
            last_login_at = now\<rparr>]\<rparr>)"
  using assms by (simp add: register_valid insert_user_def usernames_def)

text \<open>
  C8. For a payload whose five fields are non-empty strings and whose username is not
  yet stored, \<open>User.register\<close> succeeds, and \<open>User.get\<close> of that username on the store it
  leaves returns the submitted username, first_name, last_name and phone with both
  timestamps equal to the time of the registration. The result of \<open>get\<close> has no
  password field, and it is the same whatever password was submitted and whatever the
  hasher made of it.
\<close>

theorem register_get_roundtrip:
  assumes "f_username f = Some u" "f_password f = Some p" "f_first_name f = Some fn"
    "f_last_name f = Some ln" "f_phone f = Some ph"
    and "u \<noteq> []" "p \<noteq> []" "fn \<noteq> []" "ln \<noteq> []" "ph \<noteq> []"
    and "u \<notin> set (usernames d)"
  shows "(\<exists>r. fst (User_register e now d f) = Inr (Some r))
     \<and> User_get (snd (User_register e now d f)) (Some u) =
         Inr \<lparr>d_username = u, d_first_name = fn, d_last_name = ln, d_phone = ph,
              d_join_at = now, d_last_login_at = now\<rparr>
     \<and> (p' \<noteq> [] \<longrightarrow>
          User_get (snd (User_register e' now d (f\<lparr>f_password := Some p'\<rparr>))) (Some u) =
          User_get (snd (User_register e now d f)) (Some u))"
proof -
  have get: "User_get (snd (User_register e0 now d g)) (Some u) =
         Inr \<lparr>d_username = u, d_first_name = fn, d_last_name = ln, d_phone = ph,
              d_join_at = now, d_last_login_at = now\<rparr>"
    if g: "f_username g = Some u" "f_password g = Some q" "f_first_name g = Some fn"
      "f_last_name g = Some ln" "f_phone g = Some ph" "q \<noteq> []" for e0 g q
  proof -
    let ?row = "\<lparr>username = u, password = bcrypt_hash e0 q (BCRYPT_WORK_FACTOR e0),
            first_name = fn, last_name = ln, phone = ph, join_at = now,
            last_login_at = now\<rparr>"
    have store: "snd (User_register e0 now d g) = d\<lparr>users := users d @ [?row]\<rparr>"
      using g assms by (simp add: register_fresh)
    have "filter (\<lambda>r. param_eq (Some u) (username r)) (users d) = []"
      using assms(11) by (rule filter_unknown)
    then have "filter (\<lambda>r. param_eq (Some u) (username r))
        (users (snd (User_register e0 now d g))) = [?row]"
      by (simp add: store)
    then have "User_get (snd (User_register e0 now d g)) (Some u) = Inr (detail_of ?row)"
      by (rule get_row)
    then show ?thesis by (simp add: detail_of_def)
  qed
  have "\<exists>r. fst (User_register e now d f) = Inr (Some r)"
    using assms by (simp add: register_fresh)
  moreover have "User_get (snd (User_register e now d f)) (Some u) =
         Inr \<lparr>d_username = u, d_first_name = fn, d_last_name = ln, d_phone = ph,
              d_join_at = now, d_last_login_at = now\<rparr>"
    using assms by (intro get [where q = p]) simp_all
  moreover have "User_get (snd (User_register e' now d (f\<lparr>f_password := Some p'\<rparr>))) (Some u) =
         Inr \<lparr>d_username = u, d_first_name = fn, d_last_name = ln, d_phone = ph,
              d_join_at = now, d_last_login_at = now\<rparr>" if "p' \<noteq> []"
    using assms that by (intro get [where q = p']) simp_all
  ultimately show ?thesis by simp
qed

theorem register_get_roundtrip_witness:
  "''alice'' \<notin> set (usernames db0)
   \<and> fst (User_register env0 10 db0 alice) =
       Inr (Some \<lparr>reg_username = ''alice'', reg_password = ''#pw'',
                  reg_first_name = ''Alice'', reg_last_name = ''A'', reg_phone = ''555''\<rparr>)
   \<and> User_get (snd (User_register env0 10 db0 alice)) (Some ''alice'') =
       Inr \<lparr>d_username = ''alice'', d_first_name = ''Alice'', d_last_name = ''A'',
            d_phone = ''555'', d_join_at = 10, d_last_login_at = 10\<rparr>
   \<and> User_get (snd (User_register env0 10 db0 (alice\<lparr>f_password := Some ''other''\<rparr>)))
         (Some ''alice'') =
       User_get (snd (User_register env0 10 db0 alice)) (Some ''alice'')"
proof -
  have fresh: "''alice'' \<notin> set (usernames db0)"
    by (simp add: usernames_def db0_def)
  from fresh register_alice
    register_get_roundtrip [where f = alice and u = "''alice''" and p = "''pw''"
      and fn = "''Alice''" and ln = "''A''" and ph = "''555''" and d = db0 and e = env0
      and e' = env0 and now = 10 and p' = "''other''"]
  show ?thesis by (simp add: alice_def)
qed

section \<open>The list operations\<close>

lemma first_row_None: "first_row xs = None \<longleftrightarrow> xs = []"
  by (cases xs) auto

lemma all_empty: "users d = [] \<Longrightarrow> User_all d = Inl (NotFoundError ''No users found'')"
  by (simp add: User_all_def select_all_def NotFoundError_def)

lemma all_nonempty: "users d \<noteq> [] \<Longrightarrow> User_all d = Inr (map profile_of (users d))"
  by (cases "users d") (simp_all add: User_all_def select_all_def)

lemma messagesFrom_empty:
  "rows (select_messages_from ord d a) = []
   \<Longrightarrow> User_messagesFrom ord d a = Inl (NotFoundError (''No messages found from: '' @ str_of a))"
  by (simp add: User_messagesFrom_def NotFoundError_def)

lemma messagesFrom_nonempty:
  "rows (select_messages_from ord d a) \<noteq> []
   \<Longrightarrow> User_messagesFrom ord d a =
         Inr (map (\<lambda>row. \<lparr>sm_id = j_id row,
                            to_user = \<lparr>p_username = j_username row,
                                        p_first_name = j_first_name row,
                                        p_last_name = j_last_name row,
                                        p_phone = j_phone row\<rparr>,
                            sm_body = j_body row, sm_sent_at = j_sent_at row,
                            sm_read_at = j_read_at row\<rparr>)
                   (rows (select_messages_from ord d a)))"
  by (cases "rows (select_messages_from ord d a)") (simp_all add: User_messagesFrom_def)

lemma messagesTo_empty:
  "rows (select_messages_to ord d b) = []
   \<Longrightarrow> User_messagesTo ord d b = Inl (NotFoundError (''No messages found to: '' @ str_of b))"
  by (simp add: User_messagesTo_def NotFoundError_def)

lemma messagesTo_nonempty:
  "rows (select_messages_to ord d b) \<noteq> []
   \<Longrightarrow> User_messagesTo ord d b =
         Inr (map (\<lambda>row. \<lparr>rm_id = j_id row,
                            from_user = \<lparr>p_username = j_username row,
                                          p_first_name = j_first_name row,
                                          p_last_name = j_last_name row,
                                          p_phone = j_phone row\<rparr>,
                            rm_body = j_body row, rm_sent_at = j_sent_at row,
                            rm_read_at = j_read_at row\<rparr>)
                   (rows (select_messages_to ord d b)))"
  by (cases "rows (select_messages_to ord d b)") (simp_all add: User_messagesTo_def)

text \<open>Under the primary key, a username that is stored selects exactly one row.\<close>

lemma unique_row:
  "distinct (map username xs) \<Longrightarrow> name \<in> set (map username xs)
   \<Longrightarrow> \<exists>x. filter (\<lambda>u. name = username u) xs = [x] \<and> x \<in> set xs \<and> username x = name"
proof (induction xs)
  case Nil
  then show ?case by simp
next
  case (Cons y ys)
  show ?case
  proof (cases "username y = name")
    case True
    with Cons.prems(1) have "\<forall>u \<in> set ys. name \<noteq> username u" by auto
    then have "filter (\<lambda>u. name = username u) ys = []" by (simp add: filter_empty_conv)
    with True show ?thesis by auto
  next
    case False
    with Cons obtain x where "filter (\<lambda>u. name = username u) ys = [x]" "x \<in> set ys"
      "username x = name" by auto
    with False show ?thesis by auto
  qed
qed

lemma rows_from_eq:
  "rows (select_messages_from ord d (Some a)) =
     arrange ord (concat (map (\<lambda>m. map (\<lambda>u. \<lparr>j_id = msg_id m, j_username = to_username m,
                                  j_body = body m, j_sent_at = sent_at m,
                                  j_read_at = read_at m, j_first_name = first_name u,
                                  j_last_name = last_name u, j_phone = phone u\<rparr>)
                          (filter (\<lambda>u. to_username m = username u) (users d)))
                 (sent_by d a)))"
  by (simp add: select_messages_from_def sent_by_def)

lemma rows_to_eq:
  "rows (select_messages_to ord d (Some b)) =
     arrange ord (concat (map (\<lambda>m. map (\<lambda>u. \<lparr>j_id = msg_id m, j_username = from_username m,
                                  j_body = body m, j_sent_at = sent_at m,
                                  j_read_at = read_at m, j_first_name = first_name u,
                                  j_last_name = last_name u, j_phone = phone u\<rparr>)
                          (filter (\<lambda>u. from_username m = username u) (users d)))
                 (received_by d b)))"
  by (simp add: select_messages_to_def received_by_def)

lemma sent_by_refs: "db_ok d \<Longrightarrow> list_all (references_ok d) (sent_by d a)"
  by (simp add: db_ok_def sent_by_def list_all_iff)

lemma received_by_refs: "db_ok d \<Longrightarrow> list_all (references_ok d) (received_by d b)"
  by (simp add: db_ok_def received_by_def list_all_iff)

lemma join_from:
  assumes "distinct (usernames d)" and "list_all (references_ok d) ms"
  shows "list_all2 (sent_of d) ms
     (map (\<lambda>row. \<lparr>sm_id = j_id row,
                   to_user = \<lparr>p_username = j_username row, p_first_name = j_first_name row,
                               p_last_name = j_last_name row, p_phone = j_phone row\<rparr>,
                   sm_body = j_body row, sm_sent_at = j_sent_at row,
                   sm_read_at = j_read_at row\<rparr>)
        (concat (map (\<lambda>m. map (\<lambda>u. \<lparr>j_id = msg_id m, j_username = to_username m,
                                  j_body = body m, j_sent_at = sent_at m,
                                  j_read_at = read_at m, j_first_name = first_name u,
                                  j_last_name = last_name u, j_phone = phone u\<rparr>)
                          (filter (\<lambda>u. to_username m = username u) (users d)))
                 ms)))"
  using assms(2)
proof (induction ms)
  case Nil
  then show ?case by simp
next
  case (Cons m ms)
  then have "to_username m \<in> set (map username (users d))"
    by (simp add: references_ok_def usernames_def)
  with assms(1) obtain x where x: "filter (\<lambda>u. to_username m = username u) (users d) = [x]"
    "x \<in> set (users d)" "username x = to_username m"
    using unique_row [of "users d" "to_username m"] by (auto simp: usernames_def)
  from Cons have "list_all (references_ok d) ms" by simp
  with Cons.IH x show ?case
    by (auto simp: sent_of_def profile_of_def)
qed

lemma join_to:
  assumes "distinct (usernames d)" and "list_all (references_ok d) ms"
  shows "list_all2 (received_of d) ms
     (map (\<lambda>row. \<lparr>rm_id = j_id row,
                   from_user = \<lparr>p_username = j_username row, p_first_name = j_first_name row,
                                 p_last_name = j_last_name row, p_phone = j_phone row\<rparr>,
                   rm_body = j_body row, rm_sent_at = j_sent_at row,
                   rm_read_at = j_read_at row\<rparr>)
        (concat (map (\<lambda>m. map (\<lambda>u. \<lparr>j_id = msg_id m, j_username = from_username m,
                                  j_body = body m, j_sent_at = sent_at m,
                                  j_read_at = read_at m, j_first_name = first_name u,
                                  j_last_name = last_name u, j_phone = phone u\<rparr>)
                          (filter (\<lambda>u. from_username m = username u) (users d)))
                 ms)))"
  using assms(2)
proof (induction ms)
  case Nil
  then show ?case by simp
next
  case (Cons m ms)
  then have "from_username m \<in> set (map username (users d))"
    by (simp add: references_ok_def usernames_def)
  with assms(1) obtain x where x: "filter (\<lambda>u. from_username m = username u) (users d) = [x]"
    "x \<in> set (users d)" "username x = from_username m"
    using unique_row [of "users d" "from_username m"] by (auto simp: usernames_def)
  from Cons have "list_all (references_ok d) ms" by simp
  with Cons.IH x show ?case
    by (auto simp: received_of_def profile_of_def)
qed

text \<open>
  A correspondence between two lists, entry by entry, carries over to any other order
  of the second list, with the first list reordered to match.
\<close>

lemma list_all2_reorder_right:
  assumes "list_all2 R xs ys" and "mset ys' = mset ys"
  shows "\<exists>xs'. mset xs' = mset xs \<and> list_all2 R xs' ys'"
proof -
  from assms(1) have "list_all2 (\<lambda>y x. R x y) ys xs"
    by (simp add: list_all2_conv_all_nth)
  from list_all2_reorder_left_invariance [OF this assms(2)]
  obtain xs' where "list_all2 (\<lambda>y x. R x y) ys' xs'" "mset xs' = mset xs"
    by blast
  then have "mset xs' = mset xs \<and> list_all2 R xs' ys'"
    by (simp add: list_all2_conv_all_nth)
  then show ?thesis by blast
qed

lemma messagesFrom_sent:
  assumes "db_ok d"
  shows "\<exists>out ms. mset ms = mset (sent_by d a) \<and> list_all2 (sent_of d) ms out
      \<and> (if sent_by d a = []
          then User_messagesFrom ord d (Some a) =
                 Inl (NotFoundError (''No messages found from: '' @ a))
          else User_messagesFrom ord d (Some a) = Inr out)"
proof -
  let ?view = "\<lambda>row. \<lparr>sm_id = j_id row,
                   to_user = \<lparr>p_username = j_username row, p_first_name = j_first_name row,
                               p_last_name = j_last_name row, p_phone = j_phone row\<rparr>,
                   sm_body = j_body row, sm_sent_at = j_sent_at row,
                   sm_read_at = j_read_at row\<rparr>"
  let ?join = "concat (map (\<lambda>m. map (\<lambda>u. \<lparr>j_id = msg_id m, j_username = to_username m,
                                  j_body = body m, j_sent_at = sent_at m,
                                  j_read_at = read_at m, j_first_name = first_name u,
                                  j_last_name = last_name u, j_phone = phone u\<rparr>)
                          (filter (\<lambda>u. to_username m = username u) (users d)))
                 (sent_by d a))"
  let ?out = "map ?view (rows (select_messages_from ord d (Some a)))"
  from assms have "distinct (usernames d)" by (simp add: db_ok_def)
  then have "list_all2 (sent_of d) (sent_by d a) (map ?view ?join)"
    using sent_by_refs [OF assms] by (rule join_from)
  moreover have "mset ?out = mset (map ?view ?join)"
    by (simp only: rows_from_eq mset_map mset_arrange)
  ultimately obtain ms where ms: "mset ms = mset (sent_by d a)"
    "list_all2 (sent_of d) ms ?out"
    using list_all2_reorder_right by blast
  from ms(1) have empty: "sent_by d a = [] \<longleftrightarrow> ms = []"
    by (metis mset_zero_iff)
  from ms(2) have len: "length ms = length (rows (select_messages_from ord d (Some a)))"
    by (simp add: list_all2_lengthD [OF ms(2), simplified])
  show ?thesis
  proof (cases "sent_by d a = []")
    case True
    with empty len have "rows (select_messages_from ord d (Some a)) = []" by simp
    with True ms messagesFrom_empty [of ord d "Some a"] show ?thesis by auto
  next
    case False
    with empty len have "rows (select_messages_from ord d (Some a)) \<noteq> []" by auto
    with False ms messagesFrom_nonempty [of ord d "Some a"] show ?thesis by auto
  qed
qed

lemma messagesTo_received:
  assumes "db_ok d"
  shows "\<exists>out ms. mset ms = mset (received_by d b) \<and> list_all2 (received_of d) ms out
      \<and> (if received_by d b = []
          then User_messagesTo ord d (Some b) =
                 Inl (NotFoundError (''No messages found to: '' @ b))
          else User_messagesTo ord d (Some b) = Inr out)"
proof -
  let ?view = "\<lambda>row. \<lparr>rm_id = j_id row,
                   from_user = \<lparr>p_username = j_username row, p_first_name = j_first_name row,
                                 p_last_name = j_last_name row, p_phone = j_phone row\<rparr>,
                   rm_body = j_body row, rm_sent_at = j_sent_at row,
                   rm_read_at = j_read_at row\<rparr>"
  let ?join = "concat (map (\<lambda>m. map (\<lambda>u. \<lparr>j_id = msg_id m, j_username = from_username m,
                                  j_body = body m, j_sent_at = sent_at m,
                                  j_read_at = read_at m, j_first_name = first_name u,
                                  j_last_name = last_name u, j_phone = phone u\<rparr>)
                          (filter (\<lambda>u. from_username m = username u) (users d)))
                 (received_by d b))"
  let ?out = "map ?view (rows (select_messages_to ord d (Some b)))"
  from assms have "distinct (usernames d)" by (simp add: db_ok_def)
  then have "list_all2 (received_of d) (received_by d b) (map ?view ?join)"
    using received_by_refs [OF assms] by (rule join_to)
  moreover have "mset ?out = mset (map ?view ?join)"
    by (simp only: rows_to_eq mset_map mset_arrange)
  ultimately obtain ms where ms: "mset ms = mset (received_by d b)"
    "list_all2 (received_of d) ms ?out"
    using list_all2_reorder_right by blast
  from ms(1) have empty: "received_by d b = [] \<longleftrightarrow> ms = []"
    by (metis mset_zero_iff)
  from ms(2) have len: "length ms = length (rows (select_messages_to ord d (Some b)))"
    by (simp add: list_all2_lengthD [OF ms(2), simplified])
  show ?thesis
  proof (cases "received_by d b = []")
    case True
    with empty len have "rows (select_messages_to ord d (Some b)) = []" by simp
    with True ms messagesTo_empty [of ord d "Some b"] show ?thesis by auto
  next
    case False
    with empty len have "rows (select_messages_to ord d (Some b)) \<noteq> []" by auto
    with False ms messagesTo_nonempty [of ord d "Some b"] show ?thesis by auto
  qed
qed

lemma sent_by_empty_rows:
  "sent_by d a = [] \<Longrightarrow> rows (select_messages_from ord d (Some a)) = []"
  by (simp add: rows_from_eq arrange_Nil_iff)

lemma received_by_empty_rows:
  "received_by d b = [] \<Longrightarrow> rows (select_messages_to ord d (Some b)) = []"
  by (simp add: rows_to_eq arrange_Nil_iff)

text \<open>
  C6. Each list operation fails with the not-found error (status 404) exactly when the
  result set of its statement is empty, and returns a list otherwise, in whatever order
  the store returns the rows. \<open>User.all\<close> fails
  exactly when there is no user. \<open>User.messagesFrom\<close> and \<open>User.messagesTo\<close> fail when
  the user has sent, respectively received, no message; in a store that satisfies its
  key constraints they fail in that case only.
\<close>

theorem list_operations_not_found:
  "(User_all d = Inl (NotFoundError ''No users found'') \<longleftrightarrow> users d = [])
   \<and> (users d \<noteq> [] \<longrightarrow> User_all d = Inr (map profile_of (users d)))
   \<and> (User_messagesFrom ord d u = Inl (NotFoundError (''No messages found from: '' @ str_of u))
        \<longleftrightarrow> rows (select_messages_from ord d u) = [])
   \<and> (rows (select_messages_from ord d u) \<noteq> [] \<longrightarrow> (\<exists>out. User_messagesFrom ord d u = Inr out))
   \<and> (User_messagesTo ord d u = Inl (NotFoundError (''No messages found to: '' @ str_of u))
        \<longleftrightarrow> rows (select_messages_to ord d u) = [])
   \<and> (rows (select_messages_to ord d u) \<noteq> [] \<longrightarrow> (\<exists>out. User_messagesTo ord d u = Inr out))
   \<and> (sent_by d a = [] \<longrightarrow>
        User_messagesFrom ord d (Some a) = Inl (NotFoundError (''No messages found from: '' @ a)))
   \<and> (received_by d a = [] \<longrightarrow>
        User_messagesTo ord d (Some a) = Inl (NotFoundError (''No messages found to: '' @ a)))
   \<and> (db_ok d \<and> sent_by d a \<noteq> [] \<longrightarrow> (\<exists>out. User_messagesFrom ord d (Some a) = Inr out))
   \<and> (db_ok d \<and> received_by d a \<noteq> [] \<longrightarrow> (\<exists>out. User_messagesTo ord d (Some a) = Inr out))"
proof (intro conjI impI)
  show "User_all d = Inl (NotFoundError ''No users found'') \<longleftrightarrow> users d = []"
    using all_empty [of d] all_nonempty [of d] by (cases "users d = []") simp_all
  show "User_all d = Inr (map profile_of (users d))" if "users d \<noteq> []"
    using that by (rule all_nonempty)
  show "User_messagesFrom ord d u = Inl (NotFoundError (''No messages found from: '' @ str_of u))
        \<longleftrightarrow> rows (select_messages_from ord d u) = []"
    using messagesFrom_empty [of ord d u] messagesFrom_nonempty [of ord d u]
    by (cases "rows (select_messages_from ord d u) = []") simp_all
  show "\<exists>out. User_messagesFrom ord d u = Inr out" if "rows (select_messages_from ord d u) \<noteq> []"
    using messagesFrom_nonempty [OF that] by blast
  show "User_messagesTo ord d u = Inl (NotFoundError (''No messages found to: '' @ str_of u))
        \<longleftrightarrow> rows (select_messages_to ord d u) = []"
    using messagesTo_empty [of ord d u] messagesTo_nonempty [of ord d u]
    by (cases "rows (select_messages_to ord d u) = []") simp_all
  show "\<exists>out. User_messagesTo ord d u = Inr out" if "rows (select_messages_to ord d u) \<noteq> []"
    using messagesTo_nonempty [OF that] by blast
  show "User_messagesFrom ord d (Some a) = Inl (NotFoundError (''No messages found from: '' @ a))"
    if "sent_by d a = []"
    using messagesFrom_empty [OF sent_by_empty_rows [OF that]] by simp
  show "User_messagesTo ord d (Some a) = Inl (NotFoundError (''No messages found to: '' @ a))"
    if "received_by d a = []"
    using messagesTo_empty [OF received_by_empty_rows [OF that]] by simp
  show "\<exists>out. User_messagesFrom ord d (Some a) = Inr out" if "db_ok d \<and> sent_by d a \<noteq> []"
    using that messagesFrom_sent [where d = d and a = a and ord = ord] by auto
  show "\<exists>out. User_messagesTo ord d (Some a) = Inr out" if "db_ok d \<and> received_by d a \<noteq> []"
    using that messagesTo_received [where d = d and b = a and ord = ord] by auto
qed

lemma db1_ok: "db_ok db1"
  by (simp add: db_ok_def usernames_def references_ok_def db1_def alice_row_def bob_row_def
      carol_row_def)

lemma db1_sent:
  "sent_by db1 ''alice'' =
     [\<lparr>msg_id = 1, from_username = ''alice'', to_username = ''bob'', body = ''hi'',
       sent_at = 14, read_at = None\<rparr>,
      \<lparr>msg_id = 3, from_username = ''alice'', to_username = ''bob'', body = ''bye'',
       sent_at = 17, read_at = None\<rparr>]"
  "sent_by db1 ''carol'' = []"
  by (simp_all add: sent_by_def db1_def)

lemma db1_received:
  "received_by db1 ''alice'' =
     [\<lparr>msg_id = 2, from_username = ''bob'', to_username = ''alice'', body = ''yo'',
       sent_at = 15, read_at = Some 16\<rparr>]"
  "received_by db1 ''carol'' = []"
  by (simp_all add: received_by_def db1_def)

theorem list_operations_not_found_witness:
  "users db0 = [] \<and> User_all db0 = Inl (NotFoundError ''No users found'')
   \<and> users db1 \<noteq> [] \<and> User_all db1 = Inr (map profile_of (users db1))
   \<and> sent_by db1 ''carol'' = []
   \<and> User_messagesFrom [1] db1 (Some ''carol'') =
       Inl (NotFoundError ''No messages found from: carol'')
   \<and> received_by db1 ''carol'' = []
   \<and> User_messagesTo [1] db1 (Some ''carol'') =
       Inl (NotFoundError ''No messages found to: carol'')
   \<and> db_ok db1 \<and> sent_by db1 ''alice'' \<noteq> [] \<and> received_by db1 ''alice'' \<noteq> []
   \<and> (\<exists>out. User_messagesFrom [1] db1 (Some ''alice'') = Inr out)
   \<and> (\<exists>out. User_messagesTo [1] db1 (Some ''alice'') = Inr out)"
proof -
  have e0: "users db0 = []" by (simp add: db0_def)
  have e1: "users db1 \<noteq> []" by (simp add: db1_def)
  from e0 e1 db1_ok db1_sent db1_received
    list_operations_not_found [where d = db0]
    list_operations_not_found [where d = db1 and a = "''carol''" and ord = "[1]"]
    list_operations_not_found [where d = db1 and a = "''alice''" and ord = "[1]"]
  show ?thesis by simp
qed

text \<open>
  C7. In a store that satisfies its key constraints (usernames are unique, and the
  sender and the recipient of every message are stored users): for a user \<open>a\<close> who has
  sent at least one message, \<open>User.messagesFrom(a)\<close> succeeds, and the entries of its
  list are, one for one and in whatever order the store returns the rows, the stored
  messages whose \<open>from_username\<close> is \<open>a\<close>: the list corresponds entry by entry to a
  reordering \<open>ms\<close> of those messages, each entry with the id, body, sent_at and read_at
  of its message and the public profile of the message's recipient. The same holds
  for \<open>User.messagesTo(b)\<close>, the stored messages whose \<open>to_username\<close> is \<open>b\<close>, and the
  sender's profile.
\<close>

theorem messages_from_to_exact:
  assumes "db_ok d"
  shows "(sent_by d a \<noteq> [] \<longrightarrow>
           (\<exists>out ms. User_messagesFrom ord d (Some a) = Inr out
                 \<and> mset ms = mset (sent_by d a)
                 \<and> list_all2 (sent_of d) ms out))
       \<and> (received_by d b \<noteq> [] \<longrightarrow>
           (\<exists>out ms. User_messagesTo ord' d (Some b) = Inr out
                 \<and> mset ms = mset (received_by d b)
                 \<and> list_all2 (received_of d) ms out))"
proof (intro conjI impI)
  assume "sent_by d a \<noteq> []"
  with messagesFrom_sent [OF assms, where a = a and ord = ord]
  show "\<exists>out ms. User_messagesFrom ord d (Some a) = Inr out
                 \<and> mset ms = mset (sent_by d a)
                 \<and> list_all2 (sent_of d) ms out"
    by auto
next
  assume "received_by d b \<noteq> []"
  with messagesTo_received [OF assms, where b = b and ord = ord']
  show "\<exists>out ms. User_messagesTo ord' d (Some b) = Inr out
                 \<and> mset ms = mset (received_by d b)
                 \<and> list_all2 (received_of d) ms out"
    by auto
qed

text \<open>
  The example store, with the rows of each join returned second row first: the
  messages of \<open>alice\<close> come back as 3, 1, and so do the messages to \<open>bob\<close>.
\<close>

lemma db1_received_bob:
  "received_by db1 ''bob'' =
     [\<lparr>msg_id = 1, from_username = ''alice'', to_username = ''bob'', body = ''hi'',
       sent_at = 14, read_at = None\<rparr>,
      \<lparr>msg_id = 3, from_username = ''alice'', to_username = ''bob'', body = ''bye'',
       sent_at = 17, read_at = None\<rparr>]"
  by (simp add: received_by_def db1_def)

theorem messages_from_to_exact_witness:
  "db_ok db1 \<and> sent_by db1 ''alice'' \<noteq> [] \<and> received_by db1 ''bob'' \<noteq> []
   \<and> (\<exists>out ms. User_messagesFrom [1] db1 (Some ''alice'') = Inr out
          \<and> mset ms = mset (sent_by db1 ''alice'')
          \<and> list_all2 (sent_of db1) ms out)
   \<and> (\<exists>out ms. User_messagesTo [1] db1 (Some ''bob'') = Inr out
          \<and> mset ms = mset (received_by db1 ''bob'')
          \<and> list_all2 (received_of db1) ms out)
   \<and> User_messagesFrom [1] db1 (Some ''alice'') =
       Inr [\<lparr>sm_id = 3, to_user = profile_of bob_row, sm_body = ''bye'', sm_sent_at = 17,
             sm_read_at = None\<rparr>,
            \<lparr>sm_id = 1, to_user = profile_of bob_row, sm_body = ''hi'', sm_sent_at = 14,
             sm_read_at = None\<rparr>]
   \<and> User_messagesTo [1] db1 (Some ''bob'') =
       Inr [\<lparr>rm_id = 3, from_user = profile_of alice_row, rm_body = ''bye'',
             rm_sent_at = 17, rm_read_at = None\<rparr>,
            \<lparr>rm_id = 1, from_user = profile_of alice_row, rm_body = ''hi'',
             rm_sent_at = 14, rm_read_at = None\<rparr>]"
proof -
  have s: "sent_by db1 ''alice'' \<noteq> []" and r: "received_by db1 ''bob'' \<noteq> []"
    by (simp_all add: db1_sent db1_received_bob)
  have from_alice: "User_messagesFrom [1] db1 (Some ''alice'') =
       Inr [\<lparr>sm_id = 3, to_user = profile_of bob_row, sm_body = ''bye'', sm_sent_at = 17,
             sm_read_at = None\<rparr>,
            \<lparr>sm_id = 1, to_user = profile_of bob_row, sm_body = ''hi'', sm_sent_at = 14,
             sm_read_at = None\<rparr>]"
    by (simp add: User_messagesFrom_def select_messages_from_def db1_def profile_of_def
        alice_row_def bob_row_def carol_row_def)
  have to_bob: "User_messagesTo [1] db1 (Some ''bob'') =
       Inr [\<lparr>rm_id = 3, from_user = profile_of alice_row, rm_body = ''bye'',
             rm_sent_at = 17, rm_read_at = None\<rparr>,
            \<lparr>rm_id = 1, from_user = profile_of alice_row, rm_body = ''hi'',
             rm_sent_at = 14, rm_read_at = None\<rparr>]"
    by (simp add: User_messagesTo_def select_messages_to_def db1_def profile_of_def
        alice_row_def bob_row_def carol_row_def)
  note exact = messages_from_to_exact [OF db1_ok, where a = "''alice''" and b = "''bob''"
      and ord = "[1]" and ord' = "[1]"]
  from exact s have a: "\<exists>out ms. User_messagesFrom [1] db1 (Some ''alice'') = Inr out
          \<and> mset ms = mset (sent_by db1 ''alice'')
          \<and> list_all2 (sent_of db1) ms out"
    by (rule mp [OF conjunct1])
  from exact r have b: "\<exists>out ms. User_messagesTo [1] db1 (Some ''bob'') = Inr out
          \<and> mset ms = mset (received_by db1 ''bob'')
          \<and> list_all2 (received_of db1) ms out"
    by (rule mp [OF conjunct2])
  show ?thesis
    using db1_ok s r a b from_alice to_bob by (intro conjI)
qed

end
